theory Spec2Isabelle
  imports Complex_Main
begin

section \<open>Python values and helpers\<close>

text \<open>
  Timestamps are the values of \<^verbatim>\<open>time.time()\<close>, taken as real numbers. A Python
  string is the list of its code points, each below 256. Exceptions are values; a function that can raise returns
  the exception next to the state it had reached, since the source mutates in place.
\<close>

datatype exn = KeyError | ValueError | UnicodeDecodeError | OSError

datatype level = DEBUG | INFO | WARNING | ERROR

text \<open>What the bridge does to its collaborators, in program order.\<close>

datatype action =
    Log level string
  | Publish string string bool
  | Post_setOutput int int bool
  | Post_getAll
  | ProcessStates
  | Run "string list"
  | Sleep nat
  | Ws_close
  | Thread_join nat
  | Thread_start
  | Mqtt_connect
  | Mqtt_loop_start
  | Mqtt_loop_stop
  | Mqtt_disconnect

definition digit :: "nat \<Rightarrow> char" where
  "digit n = ''0123456789'' ! n"

fun str_nat :: "nat \<Rightarrow> string" where
  "str_nat n = (if n < 10 then [digit n] else str_nat (n div 10) @ [digit (n mod 10)])"

declare str_nat.simps [simp del]

definition str_int :: "int \<Rightarrow> string" where
  "str_int i = (if i < 0 then CHR ''-'' # str_nat (nat (- i)) else str_nat (nat i))"

definition on_off :: "bool \<Rightarrow> string" where
  "on_off b = (if b then ''ON'' else ''OFF'')"

text \<open>
  \<^verbatim>\<open>str.upper\<close> and \<^verbatim>\<open>str.split\<close>. The source only compares an upper-cased payload
  with \<^verbatim>\<open>ON\<close> and \<^verbatim>\<open>RESTART\<close>; \<open>upper\<close> maps the ASCII letters, and for a code point
  from 128 to 255 Python gives a character outside ASCII or the pair \<^verbatim>\<open>SS\<close>, so these
  comparisons come out the same.
\<close>

definition upper_char :: "char \<Rightarrow> char" where
  "upper_char c =
     (case map_of (zip ''abcdefghijklmnopqrstuvwxyz'' ''ABCDEFGHIJKLMNOPQRSTUVWXYZ'') c of
        None \<Rightarrow> c | Some u \<Rightarrow> u)"

definition upper :: "string \<Rightarrow> string" where
  "upper s = map upper_char s"

fun split :: "char \<Rightarrow> string \<Rightarrow> string list" where
  "split sep [] = [[]]"
| "split sep (c # cs) =
     (if c = sep then [] # split sep cs
      else (case split sep cs of [] \<Rightarrow> [[c]] | p # ps \<Rightarrow> (c # p) # ps))"

text \<open>
  \<^verbatim>\<open>int(s)\<close>, \<open>None\<close> for its ValueError. The whitespace dropped at both ends is tab,
  line feed, vertical tab, form feed, carriage return and space, and of the code points
  from 128 to 255 the two Unicode spaces U+0085 and U+00A0; the separators U+001C to
  U+001F are not dropped. One sign is allowed, the digits are the ASCII digits (no other
  code point below 256 is a decimal digit) and may be grouped by single underscores, and
  more than \<open>max_str_digits\<close> digits are refused, as the interpreter does by default.
\<close>

definition is_space :: "char \<Rightarrow> bool" where
  "is_space c = ((of_char c :: nat) \<in> {9, 10, 11, 12, 13, 32, 133, 160})"

definition max_str_digits :: nat where
  "max_str_digits = 4300"

definition is_digit :: "char \<Rightarrow> bool" where
  "is_digit c = (48 \<le> (of_char c :: nat) \<and> (of_char c :: nat) \<le> 57)"

definition strip :: "string \<Rightarrow> string" where
  "strip s = rev (dropWhile is_space (rev (dropWhile is_space s)))"

definition digits_value :: "string \<Rightarrow> nat" where
  "digits_value ds = foldl (\<lambda>acc c. 10 * acc + ((of_char c :: nat) - 48)) 0 ds"

definition parse_digits :: "string \<Rightarrow> nat option" where
  "parse_digits body =
     (let groups = split (CHR ''_'') body
      in if list_all (\<lambda>g. g \<noteq> [] \<and> list_all is_digit g) groups
            \<and> length (concat groups) \<le> max_str_digits
         then Some (digits_value (concat groups)) else None)"

definition py_int :: "string \<Rightarrow> int option" where
  "py_int s =
     (case strip s of
        [] \<Rightarrow> None
      | c # cs \<Rightarrow>
          if c = CHR ''-'' then map_option (\<lambda>n. - int n) (parse_digits cs)
          else if c = CHR ''+'' then map_option int (parse_digits cs)
          else map_option int (parse_digits (c # cs)))"

subsection \<open>Decoded JSON\<close>

text \<open>
  The values of the fields of a decoded event: null, booleans, integers and strings
  (floats, arrays and objects as field values are outside the model). \<^verbatim>\<open>dict.get\<close> gives
  \<^verbatim>\<open>None\<close>, here \<open>JNull\<close>, for a missing key.
\<close>

datatype json = JNull | JBool bool | JInt int | JStr string

definition get :: "(string \<times> json) list \<Rightarrow> string \<Rightarrow> json" where
  "get d k = (case map_of d k of None \<Rightarrow> JNull | Some v \<Rightarrow> v)"

fun py_str :: "json \<Rightarrow> string" where
  "py_str JNull = ''None''"
| "py_str (JBool b) = (if b then ''True'' else ''False'')"
| "py_str (JInt i) = str_int i"
| "py_str (JStr t) = t"

fun truthy :: "json \<Rightarrow> bool" where
  "truthy JNull = False"
| "truthy (JBool b) = b"
| "truthy (JInt i) = (i \<noteq> 0)"
| "truthy (JStr t) = (t \<noteq> [])"

text \<open>\<^verbatim>\<open>v == "text"\<close> and \<^verbatim>\<open>b == v\<close> for a Python bool \<open>b\<close> (where \<^verbatim>\<open>True == 1\<close>).\<close>

fun eq_str :: "json \<Rightarrow> string \<Rightarrow> bool" where
  "eq_str (JStr t) u = (t = u)"
| "eq_str _ u = False"

fun eq_bool :: "bool \<Rightarrow> json \<Rightarrow> bool" where
  "eq_bool b (JBool c) = (b = c)"
| "eq_bool b (JInt i) = (i = (if b then 1 else 0))"
| "eq_bool b _ = False"

subsection \<open>Dictionaries in insertion order\<close>

fun dict_set :: "'k \<Rightarrow> 'v \<Rightarrow> ('k \<times> 'v) list \<Rightarrow> ('k \<times> 'v) list" where
  "dict_set k v [] = [(k, v)]"
| "dict_set k v (p # ps) = (if fst p = k then (k, v) # ps else p # dict_set k v ps)"

text \<open>\<^verbatim>\<open>del d[k]\<close>: \<open>None\<close> is the KeyError of a missing key.\<close>

fun dict_del :: "'k \<Rightarrow> ('k \<times> 'v) list \<Rightarrow> ('k \<times> 'v) list option" where
  "dict_del k [] = None"
| "dict_del k (p # ps) =
     (if fst p = k then Some ps else map_option ((#) p) (dict_del k ps))"

definition keys :: "('k \<times> 'v) list \<Rightarrow> 'k list" where
  "keys d = map fst d"

definition wf_dict :: "('k \<times> 'v) list \<Rightarrow> bool" where
  "wf_dict d = distinct (keys d)"

section \<open>Data model\<close>

record pending =
  pc_state :: bool
  pc_timestamp :: real
  pc_module :: int
  pc_output :: int

record bridge =
  running :: bool
  ws :: bool
  ws_thread :: bool
  ws_stop_event :: bool
  pending_confirmations :: "(string \<times> pending) list"
  confirmation_failures :: "real list"
  last_check_time :: real
  confirmation_timeout :: real
  failure_threshold :: int
  failure_window :: real
  mqtt_loop :: bool
  mqtt_connected :: bool
  ws_workers :: nat

text \<open>
  The fields \<open>ws\<close> and \<open>ws_thread\<close> say whether the attribute holds an object (rather
  than \<^verbatim>\<open>None\<close>), \<open>ws_stop_event\<close> whether the event is set; \<open>mqtt_loop\<close> and
  \<open>mqtt_connected\<close> are the state of the bus client the bridge owns. \<open>ws_workers\<close> is
  the number of threads that were started on \<^verbatim>\<open>websocket_worker\<close> and have not ended.
\<close>

definition init :: bridge where
  "init = \<lparr> running = False, ws = False, ws_thread = False, ws_stop_event = False,
            pending_confirmations = [], confirmation_failures = [], last_check_time = 0,
            confirmation_timeout = 10, failure_threshold = 3, failure_window = 300,
            mqtt_loop = False, mqtt_connected = False, ws_workers = 0 \<rparr>"

text \<open>Outcomes of the collaborators, supplied by the environment of one call.\<close>

datatype run_result = Exit int | SpawnError

datatype http_result = Status nat | RequestFailed

record env =
  clock :: real
  http_post :: http_result
  probe :: "nat \<Rightarrow> http_result"
  publish_rejects :: "string \<Rightarrow> bool"
  systemctl :: run_result
  reboot :: run_result
  mqtt_connect :: "nat \<Rightarrow> bool"
  ws_thread_alive :: bool
  join_times_out :: bool
  ws_close_raises :: bool

text \<open>
  \<open>ws_thread_alive\<close> is the answer of \<^verbatim>\<open>is_alive()\<close>; \<open>join_times_out\<close> says that
  \<^verbatim>\<open>join(timeout=3)\<close> came back after its three seconds with the worker still running
  (it is then inside a blocking call such as its ten-second retry delay).
\<close>

section \<open>Connection rebuild and service restart\<close>

text \<open>
  \<^verbatim>\<open>test_ihc_connection\<close>, given the outcome of its \<^verbatim>\<open>getAll\<close> request. The initial
  states that \<^verbatim>\<open>process_ihc_states\<close> publishes are one action.
\<close>

definition test_ihc_connection :: "http_result \<Rightarrow> bool \<times> action list" where
  "test_ihc_connection r =
     (case r of
        Status c \<Rightarrow>
          if c = 200
          then (True, [Log INFO ''Testing connection to IHC server'', Post_getAll,
                       ProcessStates, Log INFO ''IHC API connection successful''])
          else (False, [Log INFO ''Testing connection to IHC server'', Post_getAll,
                        Log ERROR (''IHC API returned status code '' @ str_nat c)])
      | RequestFailed \<Rightarrow>
          (False, [Log INFO ''Testing connection to IHC server'', Post_getAll,
                   Log ERROR ''Error testing IHC connection'']))"

function reconnect_loop :: "env \<Rightarrow> nat \<Rightarrow> bool \<times> action list" where
  "reconnect_loop e retry_count =
     (if retry_count < 5 then
        (if fst (test_ihc_connection (probe e retry_count))
         then (True, snd (test_ihc_connection (probe e retry_count))
                     @ [Log INFO ''Successfully reconnected to IHC server''])
         else (fst (reconnect_loop e (retry_count + 1)),
               snd (test_ihc_connection (probe e retry_count))
               @ [Log WARNING (''Reconnection attempt '' @ str_nat (retry_count + 1)
                               @ ''/5 failed, retrying...''), Sleep 5]
               @ snd (reconnect_loop e (retry_count + 1))))
      else (False, [Log ERROR ''Failed to reconnect to IHC server after multiple attempts'']))"
  by pat_completeness auto
termination
  by (relation "measure (\<lambda>(e, n). 5 - n)") auto

declare reconnect_loop.simps [simp del]

text \<open>
  \<^verbatim>\<open>reset_connections\<close>. The join is bounded and its result is not looked at: the
  stop event is cleared and the new thread started whether or not the old worker has
  ended. A worker ends only by finding the stop event set.
\<close>

definition reset_connections :: "env \<Rightarrow> bridge \<Rightarrow> bridge \<times> action list \<times> bool" where
  "reset_connections e s =
     (let tr1 = (if ws s then [Ws_close] else []);
          s1 = s\<lparr>ws := False\<rparr>;
          s2 = s1\<lparr>ws_stop_event := True\<rparr>;
          joined = (ws_thread s2 \<and> ws_thread_alive e);
          tr2 = (if joined then [Thread_join 3] else []);
          s3 = (if joined \<and> \<not> join_times_out e
                then s2\<lparr>ws_workers := ws_workers s2 - 1\<rparr> else s2);
          s4 = s3\<lparr>ws_stop_event := False\<rparr>;
          s5 = s4\<lparr>ws_thread := True\<rparr>;
          s6 = s5\<lparr>ws_workers := ws_workers s5 + 1\<rparr>
      in (s6,
          [Log INFO ''Resetting connections after IHC server restart'']
          @ tr1 @ tr2 @ [Thread_start] @ snd (reconnect_loop e 0),
          fst (reconnect_loop e 0)))"

text \<open>
  Both loops of \<^verbatim>\<open>websocket_worker\<close> run while the stop event is not set, so every
  worker that has not ended is an active read loop once the event is clear.
\<close>

definition active_read_loops :: "bridge \<Rightarrow> nat" where
  "active_read_loops s = (if ws_stop_event s then 0 else ws_workers s)"

definition restart_ihc_server ::
  "env \<Rightarrow> bool \<Rightarrow> bridge \<Rightarrow> bridge \<times> action list \<times> exn option" where
  "restart_ihc_server e scheduled s =
     (let tr0 = [Log WARNING ''Restarting IHC server due to repeated failures'',
                 Run [''sudo'', ''systemctl'', ''restart'', ''ihcserver'']]
      in case systemctl e of
           SpawnError \<Rightarrow> (s, tr0, Some OSError)
         | Exit c \<Rightarrow>
             if c = 0
             then (fst (reset_connections e s),
                   tr0 @ [Log INFO ''IHC server restarted successfully'', Sleep 10]
                   @ fst (snd (reset_connections e s)),
                   None)
             else (s, tr0 @ [Log ERROR ''Error restarting IHC server''], None))"

section \<open>Confirmation registry sweep and escalation\<close>

text \<open>
  The loop of \<^verbatim>\<open>check_pending_confirmations\<close> over the items of the dictionary. The
  accumulator holds \<^verbatim>\<open>self.confirmation_failures\<close>, \<^verbatim>\<open>restart_needed\<close>,
  \<^verbatim>\<open>keys_to_remove\<close> and the log.
\<close>

fun sweep ::
  "bridge \<Rightarrow> real \<Rightarrow> (string \<times> pending) list
     \<Rightarrow> real list \<times> bool \<times> string list \<times> action list
     \<Rightarrow> real list \<times> bool \<times> string list \<times> action list" where
  "sweep s current_time [] acc = acc"
| "sweep s current_time ((key, info) # items) (failures, restart_needed, keys_to_remove, tr) =
     (if current_time - pc_timestamp info > confirmation_timeout s then
        (let failures1 = failures @ [current_time];
             failures2 = filter (\<lambda>t. current_time - t < failure_window s) failures1;
             restart_needed2 =
               (if int (length failures2) \<ge> failure_threshold s then True else restart_needed)
         in sweep s current_time items
              (failures2, restart_needed2, keys_to_remove @ [key],
               tr @ [Log WARNING (''No state confirmation received for ''
                       @ str_int (pc_module info) @ ''/'' @ str_int (pc_output info)
                       @ '' -> '' @ on_off (pc_state info))]))
      else sweep s current_time items (failures, restart_needed, keys_to_remove, tr))"

fun remove_keys :: "'k list \<Rightarrow> ('k \<times> 'v) list \<Rightarrow> ('k \<times> 'v) list \<times> exn option" where
  "remove_keys [] d = (d, None)"
| "remove_keys (k # ks) d =
     (case dict_del k d of None \<Rightarrow> (d, Some KeyError) | Some d' \<Rightarrow> remove_keys ks d')"

definition swept :: "env \<Rightarrow> bridge \<Rightarrow> real list \<times> bool \<times> string list \<times> action list" where
  "swept e s = sweep s (clock e) (pending_confirmations s) (confirmation_failures s, False, [], [])"

definition keys_to_remove :: "env \<Rightarrow> bridge \<Rightarrow> string list" where
  "keys_to_remove e s = fst (snd (snd (swept e s)))"

definition restart_needed :: "env \<Rightarrow> bridge \<Rightarrow> bool" where
  "restart_needed e s = fst (snd (swept e s))"

definition check_pending_confirmations ::
  "env \<Rightarrow> bridge \<Rightarrow> bridge \<times> action list \<times> exn option" where
  "check_pending_confirmations e s =
     (let s1 = s\<lparr>confirmation_failures := fst (swept e s)\<rparr>;
          tr = snd (snd (snd (swept e s)));
          removed = remove_keys (keys_to_remove e s) (pending_confirmations s1);
          s2 = s1\<lparr>pending_confirmations := fst removed\<rparr>
      in case snd removed of
           Some x \<Rightarrow> (s2, tr, Some x)
         | None \<Rightarrow>
             if restart_needed e s
             then (let r = restart_ihc_server e False (s2\<lparr>confirmation_failures := []\<rparr>)
                   in (fst r, tr @ fst (snd r), snd (snd r)))
             else (s2, tr, None))"

section \<open>Event relay\<close>

text \<open>
  \<^verbatim>\<open>process_ihc_event\<close>. Every exception inside is caught and logged; the only call that
  can raise is the publish, when the bus client rejects the topic.
\<close>

definition process_ihc_event ::
  "env \<Rightarrow> (string \<times> json) list \<Rightarrow> bridge \<Rightarrow> bridge \<times> action list" where
  "process_ihc_event e event s =
     (let event_type = get event ''type'';
          module_number = get event ''moduleNumber'';
          io_number = get event ''ioNumber'';
          state = get event ''state''
      in if JNull \<in> set [event_type, module_number, io_number, state]
            \<or> eq_str event_type ''ping''
         then (s, [])
         else
           (let mqtt_state = (if truthy state then ''ON'' else ''OFF'');
                topic = ''ihc/'' @ py_str event_type @ ''/'' @ py_str module_number
                        @ ''/'' @ py_str io_number @ ''/state''
            in if publish_rejects e topic
               then (s, [Log ERROR ''Error processing IHC event''])
               else
                 (let tr = [Publish topic mqtt_state True,
                            Log INFO (''Published event: '' @ topic @ '' = '' @ mqtt_state)]
                  in if eq_str event_type ''outputState''
                     then
                       (let key = py_str module_number @ ''_'' @ py_str io_number
                        in case map_of (pending_confirmations s) key of
                             None \<Rightarrow> (s, tr)
                           | Some info \<Rightarrow>
                               if eq_bool (pc_state info) state
                               then (case dict_del key (pending_confirmations s) of
                                       None \<Rightarrow> (s, tr @ [Log ERROR ''Error processing IHC event''])
                                     | Some d \<Rightarrow>
                                         (s\<lparr>pending_confirmations := d\<rparr>,
                                          tr @ [Log DEBUG (''State change confirmed for ''
                                                  @ py_str module_number @ ''/''
                                                  @ py_str io_number)]))
                               else (s, tr))
                     else (s, tr))))"

text \<open>
  The condition under which \<^verbatim>\<open>process_ihc_event\<close> reaches its confirmation check: all
  four fields present, the type \<^verbatim>\<open>outputState\<close>, and the publish accepted.
\<close>

definition confirm_attempted :: "env \<Rightarrow> (string \<times> json) list \<Rightarrow> bool" where
  "confirm_attempted e event =
     (JNull \<notin> set [get event ''type'', get event ''moduleNumber'', get event ''ioNumber'',
                    get event ''state'']
      \<and> eq_str (get event ''type'') ''outputState''
      \<and> \<not> publish_rejects e (''ihc/'' @ py_str (get event ''type'') @ ''/''
            @ py_str (get event ''moduleNumber'') @ ''/'' @ py_str (get event ''ioNumber'')
            @ ''/state''))"

section \<open>Command ingress\<close>

text \<open>
  \<^verbatim>\<open>set_ihc_output\<close>. A \<^verbatim>\<open>RequestException\<close> of the post is caught here; an exception
  of the publish leaves to the caller, after the registration.
\<close>

definition set_ihc_output ::
  "env \<Rightarrow> int \<Rightarrow> int \<Rightarrow> bool \<Rightarrow> bridge \<Rightarrow> bridge \<times> action list \<times> exn option" where
  "set_ihc_output e module' output state s =
     (let tr0 = [Log DEBUG ''Sending command to IHC'', Post_setOutput module' output state]
      in case http_post e of
           RequestFailed \<Rightarrow>
             (s, tr0 @ [Log ERROR ''Error communicating with IHC server''], None)
         | Status c \<Rightarrow>
             if c = 200
             then
               (let key = str_int module' @ ''_'' @ str_int output;
                    s1 = s\<lparr>pending_confirmations :=
                           dict_set key
                             \<lparr>pc_state = state, pc_timestamp = clock e,
                              pc_module = module', pc_output = output\<rparr>
                             (pending_confirmations s)\<rparr>;
                    topic = ''ihc/output/'' @ str_int module' @ ''/'' @ str_int output @ ''/state''
                in if publish_rejects e topic then (s1, tr0, Some ValueError)
                   else (s1,
                         tr0 @ [Publish topic (on_off state) True,
                                Log INFO (''Successfully set output '' @ str_int module' @ ''/''
                                          @ str_int output @ '' to '' @ on_off state)],
                         None))
             else (s, tr0 @ [Log WARNING (''IHC server returned status code '' @ str_nat c)],
                   None))"

section \<open>Host restart\<close>

text \<open>
  \<^verbatim>\<open>restart_raspberry_pi\<close>. With \<^verbatim>\<open>check=False\<close> the reboot command raises only when
  it cannot be started; its exit status is not looked at.
\<close>

definition restart_raspberry_pi :: "env \<Rightarrow> bridge \<Rightarrow> bridge \<times> action list" where
  "restart_raspberry_pi e s =
     (let recover = (\<lambda>s' tr.
            (fst (reset_connections e (s'\<lparr>running := True\<rparr>)),
             tr @ [Log ERROR ''Error restarting Raspberry Pi'']
                @ fst (snd (reset_connections e (s'\<lparr>running := True\<rparr>)))));
          tr0 = [Log WARNING ''Initiating Raspberry Pi restart'']
      in if publish_rejects e ''ihc/system/status'' then recover s tr0
         else
           (let tr1 = tr0 @ [Publish ''ihc/system/status''
                               ''Restarting Raspberry Pi in 10 seconds...'' False, Sleep 5];
                s1 = s\<lparr>running := False\<rparr>;
                s2 = s1\<lparr>ws_stop_event := True\<rparr>
            in if ws s2 \<and> ws_close_raises e then recover s2 (tr1 @ [Ws_close])
               else
                 (let tr2 = tr1 @ (if ws s2 then [Ws_close] else [])
                              @ [Mqtt_loop_stop, Mqtt_disconnect, Sleep 5, Run [''sudo'', ''reboot'']];
                      s3 = s2\<lparr>mqtt_loop := False, mqtt_connected := False\<rparr>
                  in case reboot e of
                       SpawnError \<Rightarrow> recover s3 tr2
                     | Exit c \<Rightarrow> (s3, tr2))))"

section \<open>Message dispatch\<close>

text \<open>
  \<^verbatim>\<open>on_message\<close>, for a message with the given topic and payload; the payload is
  \<open>None\<close> when its bytes do not decode. \<open>output_command\<close> is the part after the system
  commands. Whatever is raised inside is caught and logged.
\<close>

definition output_command ::
  "env \<Rightarrow> string \<Rightarrow> string \<Rightarrow> bridge \<Rightarrow> bridge \<times> action list" where
  "output_command e topic payload s =
     (let topic_parts = split (CHR ''/'') topic
      in if length topic_parts \<noteq> 5
            \<or> topic_parts ! 0 \<noteq> ''ihc''
            \<or> topic_parts ! 1 \<noteq> ''output''
            \<or> topic_parts ! 4 \<noteq> ''set''
         then (s, [Log WARNING (''Invalid topic format: '' @ topic)])
         else
           (let module' = topic_parts ! 2;
                output = topic_parts ! 3;
                state = (upper payload = ''ON'');
                tr = [Log INFO (''Received command: module='' @ module' @ '', output='' @ output
                                @ '', state='' @ on_off state)]
            in case py_int module' of
                 None \<Rightarrow> (s, tr @ [Log ERROR ''Error handling message''])
               | Some m \<Rightarrow>
                   (case py_int output of
                      None \<Rightarrow> (s, tr @ [Log ERROR ''Error handling message''])
                    | Some out \<Rightarrow>
                        (let r = set_ihc_output e m out state s
                         in case snd (snd r) of
                              None \<Rightarrow> (fst r, tr @ fst (snd r))
                            | Some x \<Rightarrow>
                                (fst r, tr @ fst (snd r) @ [Log ERROR ''Error handling message''])))))"

definition on_message ::
  "env \<Rightarrow> string \<Rightarrow> string option \<Rightarrow> bridge \<Rightarrow> bridge \<times> action list" where
  "on_message e topic raw s =
     (case raw of
        None \<Rightarrow> (s, [Log ERROR ''Error handling message''])
      | Some payload \<Rightarrow>
          if topic = ''ihc/system/restart'' then
            (if upper payload = ''RESTART'' then
               (let r = restart_ihc_server e True s;
                    tr = Log INFO ''Received manual restart command via MQTT'' # fst (snd r)
                in case snd (snd r) of
                     Some x \<Rightarrow> (fst r, tr @ [Log ERROR ''Error handling message''])
                   | None \<Rightarrow>
                       if publish_rejects e ''ihc/system/status''
                       then (fst r, tr @ [Log ERROR ''Error handling message''])
                       else (fst r, tr @ [Publish ''ihc/system/status''
                                            ''Restarting IHC server'' False]))
             else output_command e topic payload s)
          else if topic = ''ihc/system/pi_restart'' then
            (if upper payload = ''RESTART'' then
               (let r = restart_raspberry_pi e s
                in (fst r, Log INFO ''Received Raspberry Pi restart command via MQTT'' # snd r))
             else output_command e topic payload s)
          else output_command e topic payload s)"

section \<open>Startup\<close>

text \<open>
  \<^verbatim>\<open>connect_mqtt\<close>: attempt number \<open>retry_count\<close> succeeds when the environment says so.
  The loop returns from inside; falling out of it would return \<^verbatim>\<open>None\<close>, which the
  caller reads as failure.
\<close>

function connect_mqtt_loop :: "env \<Rightarrow> nat \<Rightarrow> bool \<times> action list" where
  "connect_mqtt_loop e retry_count =
     (if retry_count < 5 then
        (if mqtt_connect e retry_count
         then (True, [Log INFO ''Connecting to MQTT broker'', Mqtt_connect,
                      Log INFO ''MQTT connection established''])
         else if retry_count + 1 < 5
         then (fst (connect_mqtt_loop e (retry_count + 1)),
               [Log INFO ''Connecting to MQTT broker'', Mqtt_connect,
                Log ERROR (''MQTT connection failed. Retry '' @ str_nat (retry_count + 1) @ ''/5''),
                Sleep 5]
               @ snd (connect_mqtt_loop e (retry_count + 1)))
         else (False,
               [Log INFO ''Connecting to MQTT broker'', Mqtt_connect,
                Log ERROR (''MQTT connection failed. Retry '' @ str_nat (retry_count + 1) @ ''/5''),
                Log ERROR ''Max MQTT connection retries reached'']))
      else (False, []))"
  by pat_completeness auto
termination
  by (relation "measure (\<lambda>(e, n). 5 - n)") auto

declare connect_mqtt_loop.simps [simp del]

definition connect_mqtt :: "env \<Rightarrow> bool \<times> action list" where
  "connect_mqtt e = connect_mqtt_loop e 0"

text \<open>
  \<^verbatim>\<open>run\<close> up to its main loop. The last component says whether the main loop is
  entered (\<open>True\<close>) or \<^verbatim>\<open>run\<close> has returned and the process ends (\<open>False\<close>).
\<close>

definition run_startup :: "env \<Rightarrow> bridge \<Rightarrow> bridge \<times> action list \<times> bool" where
  "run_startup e s =
     (let t = test_ihc_connection (probe e 0);
          tr1 = snd t @ (if fst t then []
                         else [Log ERROR ''Initial connection to IHC server failed. Please check your IHC server configuration.'',
                               Log INFO ''The bridge will still start, but it may not work correctly until the IHC server is accessible.'']);
          c = connect_mqtt e
      in if \<not> fst c
         then (s, tr1 @ snd c @ [Log ERROR ''Failed to connect to MQTT broker. Exiting.''], False)
         else
           (let s1 = s\<lparr>mqtt_connected := True\<rparr>;
                s2 = s1\<lparr>mqtt_loop := True\<rparr>;
                s3 = s2\<lparr>running := True\<rparr>;
                s4 = s3\<lparr>ws_thread := True, ws_workers := ws_workers s3 + 1\<rparr>
            in (s4,
                tr1 @ snd c @ [Mqtt_loop_start, Thread_start, Log INFO ''IHC-MQTT Bridge started''],
                True)))"

text \<open>How often a trace invokes the privileged service restart.\<close>

definition restart_triggers :: "action list \<Rightarrow> nat" where
  "restart_triggers tr =
     length (filter (\<lambda>a. a = Run [''sudo'', ''systemctl'', ''restart'', ''ihcserver'']) tr)"

section \<open>Example inputs\<close>

text \<open>An environment in which every collaborator succeeds, read at clock value \<open>t\<close>.\<close>

definition env_ok :: "real \<Rightarrow> env" where
  "env_ok t = \<lparr> clock = t, http_post = Status 200, probe = (\<lambda>_. Status 200),
                publish_rejects = (\<lambda>_. False), systemctl = Exit 0, reboot = Exit 0,
                mqtt_connect = (\<lambda>_. True), ws_thread_alive = False,
                join_times_out = False, ws_close_raises = False \<rparr>"

text \<open>
  A fresh bridge with three writes outstanding, submitted so that they time out at the
  sweeps made at \<open>t1\<close>, \<open>t2\<close> and \<open>t3\<close> (each is then eleven seconds old).
\<close>

definition timeouts_at :: "real \<Rightarrow> real \<Rightarrow> real \<Rightarrow> bridge" where
  "timeouts_at t1 t2 t3 = init\<lparr>pending_confirmations :=
     [(''1_1'', \<lparr>pc_state = True, pc_timestamp = t1 - 11, pc_module = 1, pc_output = 1\<rparr>),
      (''1_2'', \<lparr>pc_state = True, pc_timestamp = t2 - 11, pc_module = 1, pc_output = 2\<rparr>),
      (''1_3'', \<lparr>pc_state = True, pc_timestamp = t3 - 11, pc_module = 1, pc_output = 3\<rparr>)]\<rparr>"

text \<open>A bridge in normal operation, with both connections up and nothing pending.\<close>

definition running_bridge :: bridge where
  "running_bridge = init\<lparr>running := True, ws := True, ws_thread := True,
                          mqtt_loop := True, mqtt_connected := True, ws_workers := 1\<rparr>"

text \<open>The same bridge after a write of state \<open>b\<close> to output 4/2 was accepted at clock 1000.\<close>

definition echoed_bridge :: "bool \<Rightarrow> bridge" where
  "echoed_bridge b = running_bridge\<lparr>pending_confirmations :=
     [(''4_2'', \<lparr>pc_state = b, pc_timestamp = 1000, pc_module = 4, pc_output = 2\<rparr>)]\<rparr>"

text \<open>The controller's reports that output 4/2 is now on, and that it is now off.\<close>

definition on_event :: "(string \<times> json) list" where
  "on_event = [(''type'', JStr ''outputState''), (''moduleNumber'', JInt 4),
               (''ioNumber'', JInt 2), (''state'', JBool True)]"

definition off_event :: "(string \<times> json) list" where
  "off_event = [(''type'', JStr ''outputState''), (''moduleNumber'', JInt 4),
                (''ioNumber'', JInt 2), (''state'', JBool False)]"

text \<open>
  Startup environments: the broker refuses every connection; the command API does not
  answer while the broker accepts the third attempt.
\<close>

definition env_broker_down :: env where
  "env_broker_down = (env_ok 0)\<lparr>mqtt_connect := (\<lambda>_. False)\<rparr>"

definition env_api_down :: env where
  "env_api_down = (env_ok 0)\<lparr>probe := (\<lambda>_. RequestFailed), mqtt_connect := (\<lambda>n. n = 2)\<rparr>"



text \<open>A worker that is alive and does not end within the three seconds of the join.\<close>

definition env_worker_stuck :: env where
  "env_worker_stuck = (env_ok 0)\<lparr>ws_thread_alive := True, join_times_out := True\<rparr>"

definition env_worker_stops :: env where
  "env_worker_stops = (env_ok 0)\<lparr>ws_thread_alive := True\<rparr>"

section \<open>The failure window in the words of the specification\<close>


section \<open>Properties of the registry sweep\<close>

lemma dict_del_filter:
  "distinct (map fst d) \<Longrightarrow> k \<in> fst ` set d \<Longrightarrow> dict_del k d = Some (filter (\<lambda>p. fst p \<noteq> k) d)"
proof (induction d)
  case Nil
  then show ?case by simp
next
  case (Cons p ps)
  show ?case
  proof (cases "fst p = k")
    case True
    with Cons.prems have "k \<notin> fst ` set ps" by simp
    then have "\<forall>q \<in> set ps. fst q \<noteq> k" by blast
    then have "filter (\<lambda>q. fst q \<noteq> k) ps = ps" by (simp add: filter_id_conv)
    with True show ?thesis by simp
  next
    case False
    with Cons show ?thesis by auto
  qed
qed

lemma remove_keys_filter:
  "distinct (map fst d) \<Longrightarrow> distinct ks \<Longrightarrow> set ks \<subseteq> fst ` set d \<Longrightarrow>
   remove_keys ks d = (filter (\<lambda>p. fst p \<notin> set ks) d, None)"
proof (induction ks arbitrary: d)
  case Nil
  then show ?case by simp
next
  case (Cons k ks)
  let ?d' = "filter (\<lambda>p. fst p \<noteq> k) d"
  have del: "dict_del k d = Some ?d'"
    using Cons.prems by (intro dict_del_filter) auto
  have d1: "distinct (map fst ?d')" using Cons.prems(1) by (simp add: distinct_map_filter)
  have d2: "set ks \<subseteq> fst ` set ?d'" using Cons.prems(2,3) by force
  have "remove_keys ks ?d' = (filter (\<lambda>p. fst p \<notin> set ks) ?d', None)"
    using Cons.IH[OF d1 _ d2] Cons.prems(2) by simp
  moreover have "filter (\<lambda>p. fst p \<notin> set ks) ?d' = filter (\<lambda>p. fst p \<notin> set (k # ks)) d"
    by (auto intro: filter_cong)
  ultimately show ?case using del by simp
qed

lemma sweep_keys:
  "fst (snd (snd (sweep s now items (fs, rn, ks, tr)))) =
     ks @ map fst (filter (\<lambda>p. now - pc_timestamp (snd p) > confirmation_timeout s) items)"
  by (induction items arbitrary: fs rn ks tr) (auto simp: Let_def)


lemma restart_triggers_append [simp]:
  "restart_triggers (xs @ ys) = restart_triggers xs + restart_triggers ys"
  by (simp add: restart_triggers_def)

lemma restart_triggers_Nil [simp]: "restart_triggers [] = 0"
  by (simp add: restart_triggers_def)

lemma restart_triggers_Cons [simp]:
  "restart_triggers (a # tr) =
     (if a = Run [''sudo'', ''systemctl'', ''restart'', ''ihcserver''] then 1 else 0)
     + restart_triggers tr"
  by (simp add: restart_triggers_def)

lemma test_ihc_connection_quiet [simp]:
  "restart_triggers (snd (test_ihc_connection r)) = 0"
  by (simp add: test_ihc_connection_def split: http_result.splits)

lemma reconnect_loop_quiet [simp]:
  "restart_triggers (snd (reconnect_loop e n)) = 0"
proof (induction e n rule: reconnect_loop.induct)
  case (1 e n)
  show ?case
  proof (cases "n < 5")
    case True
    show ?thesis
    proof (cases "fst (test_ihc_connection (probe e n))")
      case ok: True
      show ?thesis
        by (subst reconnect_loop.simps) (simp add: True ok)
    next
      case bad: False
      have "restart_triggers (snd (reconnect_loop e (n + 1))) = 0"
        using "1.IH"[OF True bad] by simp
      then show ?thesis
        by (subst reconnect_loop.simps) (simp add: True bad)
    qed
  next
    case False
    then show ?thesis
      by (subst reconnect_loop.simps) simp
  qed
qed

lemma reset_connections_quiet [simp]:
  "restart_triggers (fst (snd (reset_connections e s))) = 0"
  by (simp add: reset_connections_def Let_def)

lemma reset_connections_registry [simp]:
  "pending_confirmations (fst (reset_connections e s)) = pending_confirmations s"
  "confirmation_failures (fst (reset_connections e s)) = confirmation_failures s"
  by (simp_all add: reset_connections_def Let_def)

lemma restart_ihc_server_registry [simp]:
  "pending_confirmations (fst (restart_ihc_server e b s)) = pending_confirmations s"
  "confirmation_failures (fst (restart_ihc_server e b s)) = confirmation_failures s"
  by (simp_all add: restart_ihc_server_def Let_def split: run_result.splits)

lemma restart_ihc_server_once [simp]:
  "restart_triggers (fst (snd (restart_ihc_server e b s))) = 1"
  by (simp add: restart_ihc_server_def Let_def split: run_result.splits)


lemma length_filter_replicate:
  "length (filter P (fs @ replicate k x)) = length (filter P fs) + (if P x then k else 0)"
  by simp


lemma keys_to_remove_eq:
  "keys_to_remove e s =
     map fst (filter (\<lambda>p. clock e - pc_timestamp (snd p) > confirmation_timeout s)
                (pending_confirmations s))"
  by (simp add: keys_to_remove_def swept_def sweep_keys)

lemma keys_to_remove_distinct:
  "wf_dict (pending_confirmations s) \<Longrightarrow> distinct (keys_to_remove e s)"
  by (simp add: keys_to_remove_eq wf_dict_def keys_def distinct_map_filter)

lemma keys_to_remove_subset:
  "set (keys_to_remove e s) \<subseteq> fst ` set (pending_confirmations s)"
  by (auto simp: keys_to_remove_eq)

lemma removed_eq:
  assumes "wf_dict (pending_confirmations s)"
  shows "remove_keys (keys_to_remove e s) (pending_confirmations s) =
           (filter (\<lambda>p. fst p \<notin> set (keys_to_remove e s)) (pending_confirmations s), None)"
  using assms keys_to_remove_distinct[OF assms, of e] keys_to_remove_subset[of e s]
  by (intro remove_keys_filter) (simp_all add: wf_dict_def keys_def)

lemma check_pending_registry:
  assumes "wf_dict (pending_confirmations s)"
  shows "pending_confirmations (fst (check_pending_confirmations e s)) =
           filter (\<lambda>p. fst p \<notin> set (keys_to_remove e s)) (pending_confirmations s)"
  by (simp add: check_pending_confirmations_def Let_def removed_eq[OF assms])

lemma check_pending_exn:
  assumes "wf_dict (pending_confirmations s)"
  shows "snd (snd (check_pending_confirmations e s)) \<noteq> Some KeyError"
  by (simp add: check_pending_confirmations_def Let_def removed_eq[OF assms]
        restart_ihc_server_def split: run_result.splits)

text \<open>
  Claim C6. The sweep of \<^verbatim>\<open>check_pending_confirmations\<close> at clock value \<open>clock e\<close> never
  reports a key whose entry is at most \<open>confirmation_timeout\<close> old, reports every key whose
  entry is older, reports each key once, and afterwards none of the reported keys is
  pending; the other entries stay as they were, and no deletion raises.
\<close>

theorem sweep_expired_exact:
  assumes "wf_dict (pending_confirmations s)"
  shows "(\<forall>k info. (k, info) \<in> set (pending_confirmations s)
            \<and> clock e - pc_timestamp info \<le> confirmation_timeout s
            \<longrightarrow> k \<notin> set (keys_to_remove e s))
       \<and> (\<forall>k info. (k, info) \<in> set (pending_confirmations s)
            \<and> clock e - pc_timestamp info > confirmation_timeout s
            \<longrightarrow> k \<in> set (keys_to_remove e s))
       \<and> distinct (keys_to_remove e s)
       \<and> set (keys_to_remove e s) \<subseteq> set (keys (pending_confirmations s))
       \<and> (\<forall>k \<in> set (keys_to_remove e s).
            k \<notin> set (keys (pending_confirmations (fst (check_pending_confirmations e s)))))
       \<and> pending_confirmations (fst (check_pending_confirmations e s))
            = filter (\<lambda>p. fst p \<notin> set (keys_to_remove e s)) (pending_confirmations s)
       \<and> snd (snd (check_pending_confirmations e s)) \<noteq> Some KeyError"
proof -
  let ?d = "pending_confirmations s"
  have uniq: "\<And>k i j. (k, i) \<in> set ?d \<Longrightarrow> (k, j) \<in> set ?d \<Longrightarrow> i = j"
    using assms by (auto simp: wf_dict_def keys_def dest: eq_key_imp_eq_value)
  have a: "\<forall>k info. (k, info) \<in> set ?d \<and> clock e - pc_timestamp info \<le> confirmation_timeout s
            \<longrightarrow> k \<notin> set (keys_to_remove e s)"
  proof (intro allI impI notI)
    fix k info
    assume h: "(k, info) \<in> set ?d \<and> clock e - pc_timestamp info \<le> confirmation_timeout s"
      and "k \<in> set (keys_to_remove e s)"
    then obtain j where "(k, j) \<in> set ?d" "clock e - pc_timestamp j > confirmation_timeout s"
      by (auto simp: keys_to_remove_eq)
    with h uniq[of k info j] show False by simp
  qed
  have b: "\<forall>k info. (k, info) \<in> set ?d \<and> clock e - pc_timestamp info > confirmation_timeout s
            \<longrightarrow> k \<in> set (keys_to_remove e s)"
    by (force simp: keys_to_remove_eq)
  have c: "distinct (keys_to_remove e s)" by (rule keys_to_remove_distinct[OF assms])
  have d: "set (keys_to_remove e s) \<subseteq> set (keys ?d)"
    using keys_to_remove_subset[of e s] by (simp add: keys_def)
  have f: "pending_confirmations (fst (check_pending_confirmations e s))
            = filter (\<lambda>p. fst p \<notin> set (keys_to_remove e s)) ?d"
    by (rule check_pending_registry[OF assms])
  have g: "\<forall>k \<in> set (keys_to_remove e s).
            k \<notin> set (keys (pending_confirmations (fst (check_pending_confirmations e s))))"
    unfolding f by (auto simp: keys_def)
  show ?thesis using a b c d f g check_pending_exn[OF assms] by blast
qed

theorem sweep_expired_exact_witness:
  "wf_dict (pending_confirmations (timeouts_at 0 50 100))
   \<and> keys_to_remove (env_ok 50) (timeouts_at 0 50 100) = [''1_1'', ''1_2'']
   \<and> keys (pending_confirmations
              (fst (check_pending_confirmations (env_ok 50) (timeouts_at 0 50 100)))) = [''1_3'']"
proof -
  have h: "wf_dict (pending_confirmations (timeouts_at 0 50 100))"
    by (simp add: wf_dict_def keys_def timeouts_at_def)
  have k: "keys_to_remove (env_ok 50) (timeouts_at 0 50 100) = [''1_1'', ''1_2'']"
    by (simp add: keys_to_remove_eq env_ok_def timeouts_at_def init_def)
  have "pending_confirmations (fst (check_pending_confirmations (env_ok 50) (timeouts_at 0 50 100)))
          = filter (\<lambda>p. fst p \<notin> set (keys_to_remove (env_ok 50) (timeouts_at 0 50 100)))
              (pending_confirmations (timeouts_at 0 50 100))"
    using sweep_expired_exact [OF h, of "env_ok 50"] by blast
  then show ?thesis using h k by (simp add: keys_def timeouts_at_def)
qed











section \<open>Properties of the event relay\<close>

lemmas eval_defs = process_ihc_event_def on_message_def output_command_def set_ihc_output_def
  get_def upper_def upper_char_def py_int_def strip_def is_space_def parse_digits_def
  is_digit_def digits_value_def max_str_digits_def str_int_def str_nat.simps digit_def on_off_def
  env_ok_def running_bridge_def echoed_bridge_def init_def off_event_def on_event_def Let_def

lemma dict_del_present:
  assumes "wf_dict d" "map_of d k = Some v"
  shows "dict_del k d = Some (filter (\<lambda>p. fst p \<noteq> k) d)"
proof -
  have "k \<in> fst ` set d" using assms(2) by (metis map_of_eq_None_iff option.distinct(1))
  then show ?thesis using assms(1) by (simp add: dict_del_filter wf_dict_def keys_def)
qed

lemma eq_str_ping: "eq_str t ''outputState'' \<Longrightarrow> \<not> eq_str t ''ping''"
  by (cases t) auto

lemma process_confirmed:
  assumes "wf_dict (pending_confirmations s)"
    and "confirm_attempted e event"
    and "map_of (pending_confirmations s)
           (py_str (get event ''moduleNumber'') @ ''_'' @ py_str (get event ''ioNumber'')) = Some info"
    and "eq_bool (pc_state info) (get event ''state'')"
  shows "fst (process_ihc_event e event s) =
           s\<lparr>pending_confirmations :=
               filter (\<lambda>p. fst p \<noteq> py_str (get event ''moduleNumber'') @ ''_''
                                      @ py_str (get event ''ioNumber''))
                 (pending_confirmations s)\<rparr>"
    and "Log DEBUG (''State change confirmed for '' @ py_str (get event ''moduleNumber'')
           @ ''/'' @ py_str (get event ''ioNumber'')) \<in> set (snd (process_ihc_event e event s))"
  using assms(2,3,4) eq_str_ping[of "get event ''type''"] dict_del_present[OF assms(1,3)]
  by (simp_all add: process_ihc_event_def confirm_attempted_def Let_def)

lemma process_unconfirmed:
  assumes "\<not> (confirm_attempted e event
              \<and> (\<exists>info. map_of (pending_confirmations s)
                     (py_str (get event ''moduleNumber'') @ ''_'' @ py_str (get event ''ioNumber''))
                       = Some info
                   \<and> eq_bool (pc_state info) (get event ''state'')))"
  shows "fst (process_ihc_event e event s) = s"
    and "\<forall>m. Log DEBUG m \<notin> set (snd (process_ihc_event e event s))"
  using assms
  by (auto simp add: process_ihc_event_def confirm_attempted_def Let_def split: option.splits)

text \<open>
  Claim C7. The confirmation check of \<^verbatim>\<open>process_ihc_event\<close> removes the entry of the
  event's key and logs the confirmation iff the check is reached and an entry is pending
  under that key whose expected state equals the observed one; in every other case the
  bridge state is left exactly as it was and no confirmation is logged.
\<close>

theorem try_confirm_iff_match:
  assumes "wf_dict (pending_confirmations s)"
  shows "(let key = py_str (get event ''moduleNumber'') @ ''_'' @ py_str (get event ''ioNumber'');
              r = process_ihc_event e event s;
              matched = (confirm_attempted e event
                         \<and> (\<exists>info. map_of (pending_confirmations s) key = Some info
                                    \<and> eq_bool (pc_state info) (get event ''state'')))
          in (matched \<longrightarrow>
                fst r = s\<lparr>pending_confirmations :=
                            filter (\<lambda>p. fst p \<noteq> key) (pending_confirmations s)\<rparr>
              \<and> key \<notin> set (keys (pending_confirmations (fst r)))
              \<and> Log DEBUG (''State change confirmed for '' @ py_str (get event ''moduleNumber'')
                     @ ''/'' @ py_str (get event ''ioNumber'')) \<in> set (snd r))
           \<and> (\<not> matched \<longrightarrow> fst r = s \<and> (\<forall>m. Log DEBUG m \<notin> set (snd r))))"
proof -
  let ?key = "py_str (get event ''moduleNumber'') @ ''_'' @ py_str (get event ''ioNumber'')"
  let ?r = "process_ihc_event e event s"
  let ?matched = "confirm_attempted e event
                  \<and> (\<exists>info. map_of (pending_confirmations s) ?key = Some info
                             \<and> eq_bool (pc_state info) (get event ''state''))"
  have yes: "?matched \<longrightarrow>
                fst ?r = s\<lparr>pending_confirmations :=
                            filter (\<lambda>p. fst p \<noteq> ?key) (pending_confirmations s)\<rparr>
              \<and> ?key \<notin> set (keys (pending_confirmations (fst ?r)))
              \<and> Log DEBUG (''State change confirmed for '' @ py_str (get event ''moduleNumber'')
                     @ ''/'' @ py_str (get event ''ioNumber'')) \<in> set (snd ?r)"
  proof
    assume m: ?matched
    then obtain info where i: "map_of (pending_confirmations s) ?key = Some info"
      "eq_bool (pc_state info) (get event ''state'')" by blast
    have a: "fst ?r = s\<lparr>pending_confirmations :=
                            filter (\<lambda>p. fst p \<noteq> ?key) (pending_confirmations s)\<rparr>"
      using process_confirmed(1)[OF assms _ i] m by blast
    have b: "?key \<notin> set (keys (pending_confirmations (fst ?r)))"
      unfolding a by (auto simp: keys_def)
    show "fst ?r = s\<lparr>pending_confirmations :=
                            filter (\<lambda>p. fst p \<noteq> ?key) (pending_confirmations s)\<rparr>
              \<and> ?key \<notin> set (keys (pending_confirmations (fst ?r)))
              \<and> Log DEBUG (''State change confirmed for '' @ py_str (get event ''moduleNumber'')
                     @ ''/'' @ py_str (get event ''ioNumber'')) \<in> set (snd ?r)"
      using a b process_confirmed(2)[OF assms _ i] m by blast
  qed
  have no: "\<not> ?matched \<longrightarrow> fst ?r = s \<and> (\<forall>m. Log DEBUG m \<notin> set (snd ?r))"
    using process_unconfirmed[of e event s] by blast
  show ?thesis unfolding Let_def using yes no by blast
qed

theorem try_confirm_iff_match_witness:
  "wf_dict (pending_confirmations (echoed_bridge True))
   \<and> confirm_attempted (env_ok 1003) on_event
   \<and> fst (process_ihc_event (env_ok 1003) on_event (echoed_bridge True))
       = (echoed_bridge True)\<lparr>pending_confirmations := []\<rparr>
   \<and> fst (process_ihc_event (env_ok 1003) off_event (echoed_bridge True)) = echoed_bridge True"
proof -
  have h: "wf_dict (pending_confirmations (echoed_bridge True))"
    by (simp add: wf_dict_def keys_def echoed_bridge_def)
  have a: "confirm_attempted (env_ok 1003) on_event"
    by (simp add: confirm_attempted_def eval_defs)
  have k: "py_str (get on_event ''moduleNumber'') @ ''_'' @ py_str (get on_event ''ioNumber'') = ''4_2''"
    "py_str (get off_event ''moduleNumber'') @ ''_'' @ py_str (get off_event ''ioNumber'') = ''4_2''"
    "get on_event ''state'' = JBool True" "get off_event ''state'' = JBool False"
    "pending_confirmations (echoed_bridge True)
       = [(''4_2'', \<lparr>pc_state = True, pc_timestamp = 1000, pc_module = 4, pc_output = 2\<rparr>)]"
    by (simp_all add: eval_defs)
  show ?thesis
    using h a try_confirm_iff_match [OF h, of on_event "env_ok 1003"]
      try_confirm_iff_match [OF h, of off_event "env_ok 1003"]
    unfolding Let_def k by simp
qed




section \<open>Properties of the command ingress\<close>

lemma echo_example:
  "on_message (env_ok 1000) ''ihc/output/4/2/set'' (Some ''on'') running_bridge =
     (echoed_bridge True,
      [Log INFO ''Received command: module=4, output=2, state=ON'',
       Log DEBUG ''Sending command to IHC'', Post_setOutput 4 2 True,
       Publish ''ihc/output/4/2/state'' ''ON'' True,
       Log INFO ''Successfully set output 4/2 to ON''])"
  by (simp add: eval_defs)

lemma relay_example:
  "process_ihc_event (env_ok 1003) on_event (echoed_bridge True) =
     (running_bridge\<lparr>pending_confirmations := []\<rparr>,
      [Publish ''ihc/outputState/4/2/state'' ''ON'' True,
       Log INFO ''Published event: ihc/outputState/4/2/state = ON'',
       Log DEBUG ''State change confirmed for 4/2''])"
  by (simp add: eval_defs)

text \<open>
  Claim C1, evaluated at its own example. The command on \<^verbatim>\<open>ihc/output/4/2/set\<close> echoes to
  \<^verbatim>\<open>ihc/output/4/2/state\<close>; the event \<^verbatim>\<open>outputState\<close> for module 4, output 2 that
  follows clears the pending entry, but it is published to
  \<^verbatim>\<open>ihc/outputState/4/2/state\<close>, so nothing is published to the topic of the echo.
\<close>

theorem relay_topic_differs_from_echo:
  "snd (on_message (env_ok 1000) ''ihc/output/4/2/set'' (Some ''on'') running_bridge)
     = [Log INFO ''Received command: module=4, output=2, state=ON'',
        Log DEBUG ''Sending command to IHC'', Post_setOutput 4 2 True,
        Publish ''ihc/output/4/2/state'' ''ON'' True,
        Log INFO ''Successfully set output 4/2 to ON'']
   \<and> snd (process_ihc_event (env_ok 1003) on_event
          (fst (on_message (env_ok 1000) ''ihc/output/4/2/set'' (Some ''on'') running_bridge)))
     = [Publish ''ihc/outputState/4/2/state'' ''ON'' True,
        Log INFO ''Published event: ihc/outputState/4/2/state = ON'',
        Log DEBUG ''State change confirmed for 4/2'']
   \<and> Publish ''ihc/output/4/2/state'' ''ON'' True
       \<notin> set (snd (process_ihc_event (env_ok 1003) on_event
          (fst (on_message (env_ok 1000) ''ihc/output/4/2/set'' (Some ''on'') running_bridge))))
   \<and> pending_confirmations (fst (process_ihc_event (env_ok 1003) on_event
          (fst (on_message (env_ok 1000) ''ihc/output/4/2/set'' (Some ''on'') running_bridge))))
     = []"
  by (simp add: echo_example relay_example)

lemma map_of_dict_set: "map_of (dict_set k v d) k = Some v"
  by (induction d) auto

lemma split_system_topics:
  "split (CHR ''/'') ''ihc/system/restart'' = [''ihc'', ''system'', ''restart'']"
  "split (CHR ''/'') ''ihc/system/pi_restart'' = [''ihc'', ''system'', ''pi_restart'']"
  by simp_all

lemma device_topic_not_system:
  assumes "split (CHR ''/'') topic = [a, b, c, d, f]"
  shows "topic \<noteq> ''ihc/system/restart''" "topic \<noteq> ''ihc/system/pi_restart''"
  using assms split_system_topics by auto

lemma on_message_device:
  assumes "split (CHR ''/'') topic = [''ihc'', ''output'', ms, os, ''set'']"
  shows "on_message e topic (Some payload) s = output_command e topic payload s"
  using device_topic_not_system[OF assms] by (simp add: on_message_def)

lemma output_command_device:
  assumes "split (CHR ''/'') topic = [''ihc'', ''output'', ms, os, ''set'']"
    and "py_int ms = Some m" and "py_int os = Some out"
  shows "output_command e topic payload s =
          (let r = set_ihc_output e m out (upper payload = ''ON'') s;
               tr = [Log INFO (''Received command: module='' @ ms @ '', output='' @ os
                               @ '', state='' @ on_off (upper payload = ''ON''))]
           in case snd (snd r) of
                None \<Rightarrow> (fst r, tr @ fst (snd r))
              | Some x \<Rightarrow> (fst r, tr @ fst (snd r) @ [Log ERROR ''Error handling message'']))"
  using assms by (simp add: output_command_def Let_def)

text \<open>
  The model of \<^verbatim>\<open>int\<close> at the edges of its domain: padding, sign and grouping are
  accepted; the separator U+001C is not whitespace, so a segment that carries it is
  refused and the message discarded; more than \<open>max_str_digits\<close> digits are refused.
\<close>

lemma py_int_examples:
  "py_int ''4'' = Some 4"
  "py_int '' 42 '' = Some 42"
  "py_int ''-7'' = Some (- 7)"
  "py_int ''+1_0'' = Some 10"
  "py_int ''007'' = Some 7"
  "py_int ''1__0'' = None"
  "py_int ''4x'' = None"
  "py_int '''' = None"
  "py_int [CHR 0x1C, CHR ''4''] = None"
  "py_int [CHR ''4'', CHR 0x1F] = None"
  "py_int [CHR 0xA0, CHR ''4'', CHR 0x85] = Some 4"
  by (simp_all add: eval_defs)

lemma separator_segment_discarded:
  "on_message e (''ihc/output/'' @ [CHR 0x1C] @ ''4/2/set'') (Some payload) s =
     (s, [Log INFO (''Received command: module='' @ [CHR 0x1C] @ ''4, output=2, state=''
                    @ on_off (upper payload = ''ON'')),
          Log ERROR ''Error handling message''])"
  by (simp add: on_message_def output_command_def py_int_def strip_def is_space_def
        parse_digits_def is_digit_def Let_def)

lemma split_no_sep: "sep \<notin> set cs \<Longrightarrow> split sep cs = [cs]"
  by (induction cs) auto

lemma digit_not_space: "is_digit c \<Longrightarrow> \<not> is_space c"
  by (auto simp: is_digit_def is_space_def)

lemma digit_not_special:
  "is_digit c \<Longrightarrow> c \<noteq> CHR ''_'' \<and> c \<noteq> CHR ''-'' \<and> c \<noteq> CHR ''+''"
  by (auto simp: is_digit_def)

lemma strip_digits:
  assumes "list_all is_digit ds"
  shows "strip ds = ds"
proof (cases ds rule: rev_cases)
  case Nil
  then show ?thesis by (simp add: strip_def)
next
  case (snoc ys y)
  with assms have y: "\<not> is_space y" by (simp add: digit_not_space)
  show ?thesis
  proof (cases ds)
    case Nil
    then show ?thesis by (simp add: strip_def)
  next
    case (Cons x xs)
    with assms have "\<not> is_space x" by (simp add: digit_not_space)
    with Cons have "dropWhile is_space ds = ds" by simp
    then show ?thesis using snoc y by (simp add: strip_def)
  qed
qed

lemma too_many_digits_refused:
  assumes "list_all is_digit ds" and "max_str_digits < length ds"
  shows "py_int ds = None"
proof -
  obtain c cs where ds: "ds = c # cs"
    using assms(2) by (cases ds) auto
  have c: "c \<noteq> CHR ''-''" "c \<noteq> CHR ''+''"
    using assms(1) ds digit_not_special[of c] by auto
  have "CHR ''_'' \<notin> set ds"
    using assms(1) digit_not_special by (auto simp: list_all_iff)
  then have "split (CHR ''_'') ds = [ds]" by (rule split_no_sep)
  then have "parse_digits ds = None"
    using assms(2) by (simp add: parse_digits_def)
  then have p: "parse_digits (c # cs) = None" by (simp add: ds)
  have st: "strip (c # cs) = c # cs" using strip_digits[OF assms(1)] by (simp add: ds)
  show ?thesis
    unfolding ds py_int_def st using c p by simp
qed

text \<open>
  Claim C8. A message on a topic whose five segments are \<^verbatim>\<open>ihc\<close>, \<^verbatim>\<open>output\<close>, two
  integers and \<^verbatim>\<open>set\<close>, with a payload that is \<^verbatim>\<open>ON\<close> in upper case, submits the write
  of \<open>True\<close> for that module and output. When the request returns status 200 (and the bus
  client accepts the publish) the entry for the key is registered, expecting \<open>True\<close> at
  the clock value, and the echo \<^verbatim>\<open>ON\<close> is published retained to the state topic; with
  any other outcome the bridge state is unchanged and the only further action is one log.
\<close>

theorem command_registers_iff_submitted:
  assumes "split (CHR ''/'') topic = [''ihc'', ''output'', ms, os, ''set'']"
    and "py_int ms = Some m" and "py_int os = Some out"
    and "upper payload = ''ON''"
  shows "(let r = on_message e topic (Some payload) s;
              key = str_int m @ ''_'' @ str_int out;
              echo = ''ihc/output/'' @ str_int m @ ''/'' @ str_int out @ ''/state'';
              entry = \<lparr>pc_state = True, pc_timestamp = clock e, pc_module = m, pc_output = out\<rparr>
          in Post_setOutput m out True \<in> set (snd r)
           \<and> (http_post e = Status 200 \<and> \<not> publish_rejects e echo \<longrightarrow>
                 fst r = s\<lparr>pending_confirmations := dict_set key entry (pending_confirmations s)\<rparr>
               \<and> map_of (pending_confirmations (fst r)) key = Some entry
               \<and> snd r = [Log INFO (''Received command: module='' @ ms @ '', output='' @ os
                                      @ '', state=ON''),
                           Log DEBUG ''Sending command to IHC'', Post_setOutput m out True,
                           Publish echo ''ON'' True,
                           Log INFO (''Successfully set output '' @ str_int m @ ''/''
                                     @ str_int out @ '' to ON'')])
           \<and> (http_post e \<noteq> Status 200 \<longrightarrow>
                 fst r = s
               \<and> (\<exists>lvl msg. snd r = [Log INFO (''Received command: module='' @ ms
                                        @ '', output='' @ os @ '', state=ON''),
                                      Log DEBUG ''Sending command to IHC'',
                                      Post_setOutput m out True, Log lvl msg])))"
proof -
  have r: "on_message e topic (Some payload) s =
          (let r = set_ihc_output e m out True s;
               tr = [Log INFO (''Received command: module='' @ ms @ '', output='' @ os
                               @ '', state=ON'')]
           in case snd (snd r) of
                None \<Rightarrow> (fst r, tr @ fst (snd r))
              | Some x \<Rightarrow> (fst r, tr @ fst (snd r) @ [Log ERROR ''Error handling message'']))"
    using on_message_device[OF assms(1)] output_command_device[OF assms(1,2,3)] assms(4)
    by (simp add: on_off_def)
  show ?thesis
    unfolding r Let_def
    by (cases "http_post e")
       (auto simp: set_ihc_output_def Let_def on_off_def map_of_dict_set)
qed

theorem command_registers_iff_submitted_witness:
  "split (CHR ''/'') ''ihc/output/4/2/set'' = [''ihc'', ''output'', ''4'', ''2'', ''set'']
   \<and> py_int ''4'' = Some 4 \<and> py_int ''2'' = Some 2 \<and> upper ''on'' = ''ON''
   \<and> http_post (env_ok 1000) = Status 200
   \<and> fst (on_message (env_ok 1000) ''ihc/output/4/2/set'' (Some ''on'') running_bridge)
       = echoed_bridge True
   \<and> Publish ''ihc/output/4/2/state'' ''ON'' True
       \<in> set (snd (on_message (env_ok 1000) ''ihc/output/4/2/set'' (Some ''on'') running_bridge))
   \<and> http_post ((env_ok 1000)\<lparr>http_post := Status 500\<rparr>) \<noteq> Status 200
   \<and> fst (on_message ((env_ok 1000)\<lparr>http_post := Status 500\<rparr>) ''ihc/output/4/2/set''
            (Some ''on'') running_bridge) = running_bridge"
proof -
  have a1: "split (CHR ''/'') ''ihc/output/4/2/set'' = [''ihc'', ''output'', ''4'', ''2'', ''set'']"
    by simp
  have a2: "py_int ''4'' = Some 4" and a3: "py_int ''2'' = Some 2"
    and a4: "upper ''on'' = ''ON''"
    by (simp_all add: eval_defs)
  have e: "http_post (env_ok 1000) = Status 200"
    "\<not> publish_rejects (env_ok 1000) t" "clock (env_ok 1000) = 1000"
    "http_post ((env_ok 1000)\<lparr>http_post := Status 500\<rparr>) \<noteq> Status 200" for t
    by (simp_all add: env_ok_def)
  have k: "str_int 4 @ ''_'' @ str_int 2 = ''4_2''"
    "''ihc/output/'' @ str_int 4 @ ''/'' @ str_int 2 @ ''/state'' = ''ihc/output/4/2/state''"
    by (simp_all add: eval_defs)
  show ?thesis
    using a1 a2 a3 a4 e(1,4)
      command_registers_iff_submitted [OF a1 a2 a3 a4, of "env_ok 1000" running_bridge]
      command_registers_iff_submitted [OF a1 a2 a3 a4,
        of "(env_ok 1000)\<lparr>http_post := Status 500\<rparr>" running_bridge]
    unfolding Let_def k
    by (simp add: e echoed_bridge_def running_bridge_def init_def)
qed

text \<open>
  Claim C9. A message whose topic is neither a system topic nor of the five-segment form
  is answered by one log entry and leaves the bridge state unchanged; so does a message
  of that form whose module or output segment is not an integer; \<^verbatim>\<open>foo/bar\<close> is such a
  topic. \<^verbatim>\<open>on_message\<close> returns normally in every case: whatever is raised inside is
  caught.
\<close>

theorem malformed_message_discarded:
  "(topic \<noteq> ''ihc/system/restart'' \<and> topic \<noteq> ''ihc/system/pi_restart''
      \<and> (length (split (CHR ''/'') topic) \<noteq> 5
           \<or> split (CHR ''/'') topic ! 0 \<noteq> ''ihc''
           \<or> split (CHR ''/'') topic ! 1 \<noteq> ''output''
           \<or> split (CHR ''/'') topic ! 4 \<noteq> ''set'')
     \<longrightarrow> on_message e topic raw s =
           (s, [case raw of None \<Rightarrow> Log ERROR ''Error handling message''
                          | Some p \<Rightarrow> Log WARNING (''Invalid topic format: '' @ topic)]))
   \<and> (split (CHR ''/'') topic = [''ihc'', ''output'', ms, os, ''set'']
      \<and> (py_int ms = None \<or> py_int os = None)
     \<longrightarrow> on_message e topic (Some payload) s =
           (s, [Log INFO (''Received command: module='' @ ms @ '', output='' @ os
                          @ '', state='' @ on_off (upper payload = ''ON'')),
                Log ERROR ''Error handling message'']))
   \<and> on_message e ''foo/bar'' (Some payload) s =
         (s, [Log WARNING ''Invalid topic format: foo/bar''])"
proof -
  have a: "topic \<noteq> ''ihc/system/restart'' \<and> topic \<noteq> ''ihc/system/pi_restart''
      \<and> (length (split (CHR ''/'') topic) \<noteq> 5
           \<or> split (CHR ''/'') topic ! 0 \<noteq> ''ihc''
           \<or> split (CHR ''/'') topic ! 1 \<noteq> ''output''
           \<or> split (CHR ''/'') topic ! 4 \<noteq> ''set'')
     \<longrightarrow> on_message e topic raw s =
           (s, [case raw of None \<Rightarrow> Log ERROR ''Error handling message''
                          | Some p \<Rightarrow> Log WARNING (''Invalid topic format: '' @ topic)])"
    by (cases raw) (auto simp: on_message_def output_command_def Let_def)
  have b: "split (CHR ''/'') topic = [''ihc'', ''output'', ms, os, ''set'']
      \<and> (py_int ms = None \<or> py_int os = None)
     \<longrightarrow> on_message e topic (Some payload) s =
           (s, [Log INFO (''Received command: module='' @ ms @ '', output='' @ os
                          @ '', state='' @ on_off (upper payload = ''ON'')),
                Log ERROR ''Error handling message''])"
  proof
    assume h: "split (CHR ''/'') topic = [''ihc'', ''output'', ms, os, ''set'']
      \<and> (py_int ms = None \<or> py_int os = None)"
    then have sp: "split (CHR ''/'') topic = [''ihc'', ''output'', ms, os, ''set'']" by simp
    show "on_message e topic (Some payload) s =
           (s, [Log INFO (''Received command: module='' @ ms @ '', output='' @ os
                          @ '', state='' @ on_off (upper payload = ''ON'')),
                Log ERROR ''Error handling message''])"
      using h unfolding on_message_device[OF sp]
      by (auto simp: output_command_def Let_def split: option.splits)
  qed
  have c: "on_message e ''foo/bar'' (Some payload) s =
         (s, [Log WARNING ''Invalid topic format: foo/bar''])"
    by (simp add: on_message_def output_command_def Let_def)
  show ?thesis using a b c by blast
qed

theorem malformed_message_discarded_witness:
  "''foo/bar'' \<noteq> ''ihc/system/restart'' \<and> ''foo/bar'' \<noteq> ''ihc/system/pi_restart''
   \<and> length (split (CHR ''/'') ''foo/bar'') \<noteq> 5
   \<and> on_message (env_ok 0) ''foo/bar'' (Some ''ON'') (echoed_bridge True)
       = (echoed_bridge True, [Log WARNING ''Invalid topic format: foo/bar''])
   \<and> split (CHR ''/'') ''ihc/output/x/2/set'' = [''ihc'', ''output'', ''x'', ''2'', ''set'']
   \<and> py_int ''x'' = None
   \<and> fst (on_message (env_ok 0) ''ihc/output/x/2/set'' (Some ''ON'') (echoed_bridge True))
       = echoed_bridge True"
proof -
  have a: "''foo/bar'' \<noteq> ''ihc/system/restart''" "''foo/bar'' \<noteq> ''ihc/system/pi_restart''"
    "length (split (CHR ''/'') ''foo/bar'') \<noteq> 5"
    by simp_all
  have b: "split (CHR ''/'') ''ihc/output/x/2/set'' = [''ihc'', ''output'', ''x'', ''2'', ''set'']"
    by simp
  have c: "py_int ''x'' = None" by (simp add: eval_defs)
  show ?thesis
    using a b c
      malformed_message_discarded [where topic = "''foo/bar''" and e = "env_ok 0"
        and raw = "Some ''ON''" and s = "echoed_bridge True" and payload = "''ON''"]
      malformed_message_discarded [where topic = "''ihc/output/x/2/set''" and ms = "''x''"
        and os = "''2''" and e = "env_ok 0" and s = "echoed_bridge True" and payload = "''ON''"]
    by simp
qed

section \<open>Properties of startup and host restart\<close>

lemma connect_mqtt_loop_ok:
  "fst (connect_mqtt_loop e n) \<longleftrightarrow> (\<exists>i. n \<le> i \<and> i < 5 \<and> mqtt_connect e i)"
proof (induction e n rule: connect_mqtt_loop.induct)
  case (1 e n)
  show ?case
  proof (cases "n < 5")
    case False
    then show ?thesis by (subst connect_mqtt_loop.simps) auto
  next
    case lt: True
    show ?thesis
    proof (cases "mqtt_connect e n")
      case True
      with lt show ?thesis by (subst connect_mqtt_loop.simps) auto
    next
      case no: False
      show ?thesis
      proof (cases "n + 1 < 5")
        case True
        have "fst (connect_mqtt_loop e n) = fst (connect_mqtt_loop e (n + 1))"
          using lt no True by (subst connect_mqtt_loop.simps) simp
        also have "\<dots> \<longleftrightarrow> (\<exists>i. n + 1 \<le> i \<and> i < 5 \<and> mqtt_connect e i)"
          by (rule "1.IH"[OF lt no True])
        also have "\<dots> \<longleftrightarrow> (\<exists>i. n \<le> i \<and> i < 5 \<and> mqtt_connect e i)"
        proof
          assume "\<exists>i. n + 1 \<le> i \<and> i < 5 \<and> mqtt_connect e i"
          then obtain i where "n + 1 \<le> i" "i < 5" "mqtt_connect e i" by blast
          then have "n \<le> i \<and> i < 5 \<and> mqtt_connect e i" by simp
          then show "\<exists>i. n \<le> i \<and> i < 5 \<and> mqtt_connect e i" by blast
        next
          assume "\<exists>i. n \<le> i \<and> i < 5 \<and> mqtt_connect e i"
          then obtain i where i: "n \<le> i" "i < 5" "mqtt_connect e i" by blast
          with no have "i \<noteq> n" by auto
          with i have "n + 1 \<le> i \<and> i < 5 \<and> mqtt_connect e i" by simp
          then show "\<exists>i. n + 1 \<le> i \<and> i < 5 \<and> mqtt_connect e i" by blast
        qed
        finally show ?thesis .
      next
        case False
        with lt have n: "n = 4" by simp
        have "\<not> fst (connect_mqtt_loop e n)"
          using lt no False by (subst connect_mqtt_loop.simps) simp
        moreover have "\<not> (\<exists>i. n \<le> i \<and> i < 5 \<and> mqtt_connect e i)"
          using no n by (auto simp: le_less)
        ultimately show ?thesis by blast
      qed
    qed
  qed
qed

lemma connect_mqtt_ok: "fst (connect_mqtt e) \<longleftrightarrow> (\<exists>i<5. mqtt_connect e i)"
  by (simp add: connect_mqtt_def connect_mqtt_loop_ok)

lemma test_ihc_connection_ok: "fst (test_ihc_connection r) \<longleftrightarrow> r = Status 200"
  by (simp add: test_ihc_connection_def split: http_result.splits)

text \<open>
  Claim C3 fails for the broker: when every connection attempt is refused, \<^verbatim>\<open>run\<close>
  logs that it exits and returns without setting the running flag.
\<close>

theorem startup_exits_without_broker:
  "\<not> snd (snd (run_startup env_broker_down init))
   \<and> \<not> running (fst (run_startup env_broker_down init))
   \<and> last (fst (snd (run_startup env_broker_down init)))
       = Log ERROR ''Failed to connect to MQTT broker. Exiting.''"
proof -
  have "\<not> fst (connect_mqtt env_broker_down)"
    by (simp add: connect_mqtt_ok env_broker_down_def)
  then show ?thesis
    by (simp add: run_startup_def Let_def init_def)
qed

text \<open>
  Claim C3, amended. When the broker accepts one of the five connection attempts,
  \<^verbatim>\<open>run\<close> starts (running flag set, bus loop and event-stream thread started), and an
  unreachable command API is only logged. When the broker refuses all five attempts,
  \<^verbatim>\<open>run\<close> logs the failure and returns with the state unchanged.
\<close>

theorem startup_depends_on_broker:
  "((\<exists>i<5. mqtt_connect e i) \<longrightarrow>
       snd (snd (run_startup e s))
     \<and> running (fst (run_startup e s))
     \<and> mqtt_loop (fst (run_startup e s))
     \<and> ws_thread (fst (run_startup e s))
     \<and> last (fst (snd (run_startup e s))) = Log INFO ''IHC-MQTT Bridge started''
     \<and> (probe e 0 \<noteq> Status 200 \<longrightarrow>
          Log ERROR ''Initial connection to IHC server failed. Please check your IHC server configuration.''
            \<in> set (fst (snd (run_startup e s)))))
   \<and> ((\<forall>i<5. \<not> mqtt_connect e i) \<longrightarrow>
       \<not> snd (snd (run_startup e s))
     \<and> fst (run_startup e s) = s
     \<and> last (fst (snd (run_startup e s)))
         = Log ERROR ''Failed to connect to MQTT broker. Exiting.'')"
proof -
  have up: "(\<exists>i<5. mqtt_connect e i) \<longrightarrow>
       snd (snd (run_startup e s))
     \<and> running (fst (run_startup e s))
     \<and> mqtt_loop (fst (run_startup e s))
     \<and> ws_thread (fst (run_startup e s))
     \<and> last (fst (snd (run_startup e s))) = Log INFO ''IHC-MQTT Bridge started''
     \<and> (probe e 0 \<noteq> Status 200 \<longrightarrow>
          Log ERROR ''Initial connection to IHC server failed. Please check your IHC server configuration.''
            \<in> set (fst (snd (run_startup e s))))"
  proof
    assume "\<exists>i<5. mqtt_connect e i"
    then have c: "fst (connect_mqtt e)" by (simp add: connect_mqtt_ok)
    show "snd (snd (run_startup e s))
     \<and> running (fst (run_startup e s))
     \<and> mqtt_loop (fst (run_startup e s))
     \<and> ws_thread (fst (run_startup e s))
     \<and> last (fst (snd (run_startup e s))) = Log INFO ''IHC-MQTT Bridge started''
     \<and> (probe e 0 \<noteq> Status 200 \<longrightarrow>
          Log ERROR ''Initial connection to IHC server failed. Please check your IHC server configuration.''
            \<in> set (fst (snd (run_startup e s))))"
      using c by (simp add: run_startup_def Let_def test_ihc_connection_ok)
  qed
  have down: "(\<forall>i<5. \<not> mqtt_connect e i) \<longrightarrow>
       \<not> snd (snd (run_startup e s))
     \<and> fst (run_startup e s) = s
     \<and> last (fst (snd (run_startup e s)))
         = Log ERROR ''Failed to connect to MQTT broker. Exiting.''"
  proof
    assume "\<forall>i<5. \<not> mqtt_connect e i"
    then have c: "\<not> fst (connect_mqtt e)" by (simp add: connect_mqtt_ok)
    show "\<not> snd (snd (run_startup e s))
     \<and> fst (run_startup e s) = s
     \<and> last (fst (snd (run_startup e s)))
         = Log ERROR ''Failed to connect to MQTT broker. Exiting.''"
      using c by (simp add: run_startup_def Let_def)
  qed
  show ?thesis using up down by blast
qed

theorem startup_depends_on_broker_witness:
  "mqtt_connect env_api_down 2
   \<and> probe env_api_down 0 \<noteq> Status 200
   \<and> snd (snd (run_startup env_api_down init))
   \<and> running (fst (run_startup env_api_down init))
   \<and> \<not> snd (snd (run_startup env_broker_down init))
   \<and> fst (run_startup env_broker_down init) = init"
proof -
  have m: "mqtt_connect env_api_down 2" by (simp add: env_api_down_def)
  then have a: "\<exists>i<5. mqtt_connect env_api_down i" by (intro exI[of _ 2]) simp
  have b: "probe env_api_down 0 \<noteq> Status 200" by (simp add: env_api_down_def)
  have c: "\<forall>i<5. \<not> mqtt_connect env_broker_down i" by (simp add: env_broker_down_def)
  show ?thesis
    using m a b c startup_depends_on_broker [of env_api_down init]
      startup_depends_on_broker [of env_broker_down init]
    by blast
qed

text \<open>
  Claim C2, evaluated where the reboot command runs and exits with status 1: nothing is
  raised, so the bridge is left with the running flag cleared and both connections torn
  down, and no connection is rebuilt. Where the command cannot be started the running
  flag is set again and the event-stream thread is restarted, while the bus client stays
  stopped and disconnected.
\<close>

theorem failed_reboot_leaves_bridge_stopped:
  "restart_raspberry_pi ((env_ok 0)\<lparr>reboot := Exit 1\<rparr>) running_bridge =
     (running_bridge\<lparr>running := False, ws_stop_event := True,
                     mqtt_loop := False, mqtt_connected := False\<rparr>,
      [Log WARNING ''Initiating Raspberry Pi restart'',
       Publish ''ihc/system/status'' ''Restarting Raspberry Pi in 10 seconds...'' False,
       Sleep 5, Ws_close, Mqtt_loop_stop, Mqtt_disconnect, Sleep 5, Run [''sudo'', ''reboot'']])
   \<and> \<not> running (fst (restart_raspberry_pi ((env_ok 0)\<lparr>reboot := Exit 1\<rparr>) running_bridge))
   \<and> Thread_start \<notin> set (snd (restart_raspberry_pi ((env_ok 0)\<lparr>reboot := Exit 1\<rparr>) running_bridge))
   \<and> running (fst (restart_raspberry_pi ((env_ok 0)\<lparr>reboot := SpawnError\<rparr>) running_bridge))
   \<and> Thread_start \<in> set (snd (restart_raspberry_pi ((env_ok 0)\<lparr>reboot := SpawnError\<rparr>) running_bridge))
   \<and> \<not> mqtt_connected (fst (restart_raspberry_pi ((env_ok 0)\<lparr>reboot := SpawnError\<rparr>) running_bridge))
   \<and> \<not> mqtt_loop (fst (restart_raspberry_pi ((env_ok 0)\<lparr>reboot := SpawnError\<rparr>) running_bridge))"
  by (simp add: restart_raspberry_pi_def reset_connections_def Let_def env_ok_def
        running_bridge_def init_def)

section \<open>Properties of the connection rebuild\<close>

text \<open>
  Claim C4, evaluated where the old worker is alive and does not end within the three
  seconds of the join (it is inside its ten-second retry delay): \<^verbatim>\<open>reset_connections\<close>
  goes on after the join, clears the stop event and starts the new thread, so the old
  worker finds the event clear and reads on next to the new one. Two read loops are
  active after the rebuild, also when it is reached through the service restart. Where
  the worker ends within the join, one loop is active.
\<close>

theorem rebuild_leaves_two_read_loops:
  "active_read_loops running_bridge = 1
   \<and> take 4 (fst (snd (reset_connections env_worker_stuck running_bridge)))
       = [Log INFO ''Resetting connections after IHC server restart'', Ws_close,
          Thread_join 3, Thread_start]
   \<and> \<not> ws_stop_event (fst (reset_connections env_worker_stuck running_bridge))
   \<and> ws_workers (fst (reset_connections env_worker_stuck running_bridge)) = 2
   \<and> active_read_loops (fst (reset_connections env_worker_stuck running_bridge)) = 2
   \<and> active_read_loops (fst (restart_ihc_server env_worker_stuck False running_bridge)) = 2
   \<and> active_read_loops (fst (reset_connections env_worker_stops running_bridge)) = 1"
  by (simp add: active_read_loops_def reset_connections_def restart_ihc_server_def Let_def
        env_worker_stuck_def env_worker_stops_def env_ok_def running_bridge_def init_def)

end
